theory Spec2Isabelle
  imports Complex_Main "HOL-Library.Word"
begin

section \<open>JavaScript values used by the pages\<close>

text \<open>
  A JavaScript string is a sequence of UTF-16 code units. ASCII literals of the source
  are written with \<open>utf16\<close>, which maps every character to the code unit of the same
  number.
\<close>

type_synonym jsstring = "16 word list"

definition utf16 :: "string \<Rightarrow> jsstring" where
  "utf16 cs = map of_char cs"

text \<open>
  \<open>String.prototype.trim\<close> removes the code units of the ECMAScript productions
  WhiteSpace and LineTerminator from both ends. All of them lie in the basic plane,
  so the test is a test on one code unit.
\<close>

definition isWhiteSpace :: "16 word \<Rightarrow> bool" where
  "isWhiteSpace u \<longleftrightarrow>
     u \<in> {0x0009, 0x000A, 0x000B, 0x000C, 0x000D, 0x0020, 0x00A0, 0x1680,
          0x2028, 0x2029, 0x202F, 0x205F, 0x3000, 0xFEFF}
     \<or> (0x2000 \<le> u \<and> u \<le> 0x200A)"

definition trim :: "jsstring \<Rightarrow> jsstring" where
  "trim s = rev (dropWhile isWhiteSpace (rev (dropWhile isWhiteSpace s)))"

text \<open>\<open>s.endsWith(t)\<close>: the last \<open>length t\<close> code units of \<open>s\<close> are \<open>t\<close>.\<close>

definition endsWith :: "jsstring \<Rightarrow> jsstring \<Rightarrow> bool" where
  "endsWith s t \<longleftrightarrow> length t \<le> length s \<and> drop (length s - length t) s = t"

text \<open>
  Truthiness, as the conditions of the source use it. A string is falsy exactly when it
  is empty. A numeric property read from a JSON body is a number or missing
  (\<open>undefined\<close> or \<open>null\<close>, here \<open>None\<close>); JSON carries no NaN, so the falsy numbers are
  the missing one and zero. An optional boolean is truthy exactly when it is \<open>true\<close>.
\<close>

type_synonym jsnumber = real

definition truthy_string :: "jsstring \<Rightarrow> bool" where
  "truthy_string s \<longleftrightarrow> s \<noteq> []"

definition truthy_number :: "jsnumber option \<Rightarrow> bool" where
  "truthy_number v = (case v of None \<Rightarrow> False | Some x \<Rightarrow> x \<noteq> 0)"

definition truthy_bool :: "bool option \<Rightarrow> bool" where
  "truthy_bool v = (case v of None \<Rightarrow> False | Some b \<Rightarrow> b)"

text \<open>
  The template literals of the session identifiers print \<open>Date.now()\<close>, an integral
  number of milliseconds of magnitude far below \<open>10^21\<close>; JavaScript prints such a
  number as its decimal digits, with a leading minus sign when it is negative.
\<close>

fun digits :: "nat \<Rightarrow> jsstring" where
  "digits n =
     (if n < 10 then [of_nat (48 + n)]
      else digits (n div 10) @ [of_nat (48 + n mod 10)])"

definition Number_toString :: "int \<Rightarrow> jsstring" where
  "Number_toString i = (if i < 0 then 0x2D # digits (nat (- i)) else digits (nat i))"


section \<open>The resume screening page\<close>

text \<open>
  A selected file is a \<open>File\<close> object: its name and its bytes. The entries of the
  resume catalog and of a screening run are rendered by the same code, which reads an
  identifier, the file name, the score and the analysis.
\<close>

record js_file =
  file_name :: jsstring
  file_bytes :: "8 word list"

record result =
  result_id :: jsstring
  result_filename :: jsstring
  result_score :: "jsnumber option"
  result_analysis :: "jsstring option"

record resume_state =
  resumes :: "result list"
  uploading :: bool
  screening :: bool
  selectedFile :: "js_file option"
  jobDescription :: jsstring
  screenResults :: "result list"

text \<open>
  \<open>displayResults\<close> is recomputed at every render from the last screening run and
  the catalog: the run when it has an entry, else the catalog entries whose score is
  truthy.
\<close>

definition displayResults :: "resume_state \<Rightarrow> result list" where
  "displayResults s =
     (if length (screenResults s) > 0 then screenResults s
      else filter (\<lambda>r. truthy_number (result_score r)) (resumes s))"

text \<open>The extension test shared by the two upload views.\<close>

definition accepted_name :: "jsstring \<Rightarrow> bool" where
  "accepted_name n \<longleftrightarrow> endsWith n (utf16 ''.pdf'') \<or> endsWith n (utf16 ''.docx'')"

text \<open>
  \<open>handleFileChange\<close> receives the file list of the picker and looks at its first
  entry only; an empty list (the dialog was cancelled) changes nothing.
\<close>

definition resume_handleFileChange :: "js_file list \<Rightarrow> resume_state \<Rightarrow> resume_state" where
  "resume_handleFileChange files s =
     (case files of
        [] \<Rightarrow> s
      | f # _ \<Rightarrow> if accepted_name (file_name f) then s\<lparr>selectedFile := Some f\<rparr> else s)"

text \<open>
  An asynchronous handler is split at its \<open>await\<close>: the part before it returns the new
  state and the request it sends, if any; the parts after it are the continuation of a
  successful response and the one of a failure (\<open>catch\<close> followed by \<open>finally\<close>).
  A handler reads the state of the render that offered its control, and React renders
  again before the next user event, so the part before the \<open>await\<close> reads the current
  state; the continuations read no state at all (the transcript is extended by a
  functional update, applied to the transcript of the moment).
  Toasts, console output and scrolling are presentation and are left out of the state.
\<close>

datatype resume_call =
    ListResumes
  | UploadResume js_file
  | ScreenResumes jsstring

definition loadResumes_success :: "result list option \<Rightarrow> resume_state \<Rightarrow> resume_state" where
  "loadResumes_success body s =
     s\<lparr>resumes := (case body of None \<Rightarrow> [] | Some rs \<Rightarrow> rs)\<rparr>"

definition loadResumes_failure :: "resume_state \<Rightarrow> resume_state" where
  "loadResumes_failure s = s"

definition resume_handleUpload :: "resume_state \<Rightarrow> resume_state \<times> resume_call option" where
  "resume_handleUpload s =
     (case selectedFile s of
        None \<Rightarrow> (s, None)
      | Some f \<Rightarrow> (s\<lparr>uploading := True\<rparr>, Some (UploadResume f)))"

text \<open>A successful upload clears the selection and reloads the catalog.\<close>

definition resume_handleUpload_success :: "resume_state \<Rightarrow> resume_state \<times> resume_call option" where
  "resume_handleUpload_success s =
     (s\<lparr>selectedFile := None, uploading := False\<rparr>, Some ListResumes)"

definition resume_handleUpload_failure :: "resume_state \<Rightarrow> resume_state" where
  "resume_handleUpload_failure s = s\<lparr>uploading := False\<rparr>"

definition handleScreenResumes :: "resume_state \<Rightarrow> resume_state \<times> resume_call option" where
  "handleScreenResumes s =
     (if \<not> truthy_string (trim (jobDescription s)) then (s, None)
      else if length (resumes s) = 0 then (s, None)
      else (s\<lparr>screening := True\<rparr>, Some (ScreenResumes (jobDescription s))))"

definition handleScreenResumes_success ::
  "result list option \<Rightarrow> resume_state \<Rightarrow> resume_state \<times> resume_call option" where
  "handleScreenResumes_success body s =
     (s\<lparr>screenResults := (case body of None \<Rightarrow> [] | Some rs \<Rightarrow> rs), screening := False\<rparr>,
      Some ListResumes)"

definition handleScreenResumes_failure :: "resume_state \<Rightarrow> resume_state" where
  "handleScreenResumes_failure s = s\<lparr>screening := False\<rparr>"

text \<open>
  The page as a whole: its state and the requests that are in flight. The component
  mounts with empty lists and one catalog request already sent. An event is a user
  action on a control the view offers, or the completion of a request in flight (the
  number says which one). A click on a disabled button, and a completion that does not
  fit the request it names, do nothing.
\<close>

record resume_page =
  resume_ui :: resume_state
  resume_pending :: "resume_call list"

datatype resume_event =
    PickResume "js_file list"
  | TypeJobDescription jsstring
  | ClickUploadResume
  | ClickScreen
  | ResumesListed nat "result list option"
  | ResumeUploaded nat
  | ResumesScreened nat "result list option"
  | ResumeCallFailed nat

definition resume_init :: resume_page where
  "resume_init =
     \<lparr>resume_ui = \<lparr>resumes = [], uploading = False, screening = False, selectedFile = None,
                   jobDescription = [], screenResults = []\<rparr>,
      resume_pending = [ListResumes]\<rparr>"

definition drop_nth :: "nat \<Rightarrow> 'a list \<Rightarrow> 'a list" where
  "drop_nth n xs = take n xs @ drop (Suc n) xs"

definition sent :: "'c option \<Rightarrow> 'c list" where
  "sent r = (case r of None \<Rightarrow> [] | Some c \<Rightarrow> [c])"

definition is_upload :: "resume_call \<Rightarrow> bool" where
  "is_upload c = (case c of UploadResume f \<Rightarrow> True | _ \<Rightarrow> False)"

definition is_screening :: "resume_call \<Rightarrow> bool" where
  "is_screening c = (case c of ScreenResumes d \<Rightarrow> True | _ \<Rightarrow> False)"

definition resume_step :: "resume_page \<Rightarrow> resume_event \<Rightarrow> resume_page" where
  "resume_step p e =
     (let s = resume_ui p; q = resume_pending p in
      case e of
        PickResume files \<Rightarrow> p\<lparr>resume_ui := resume_handleFileChange files s\<rparr>
      | TypeJobDescription d \<Rightarrow> p\<lparr>resume_ui := s\<lparr>jobDescription := d\<rparr>\<rparr>
      | ClickUploadResume \<Rightarrow>
          if uploading s \<or> selectedFile s = None then p
          else (case resume_handleUpload s of
                  (s', r) \<Rightarrow> \<lparr>resume_ui = s', resume_pending = q @ sent r\<rparr>)
      | ClickScreen \<Rightarrow>
          if screening s \<or> \<not> truthy_string (trim (jobDescription s)) \<or> length (resumes s) = 0
          then p
          else (case handleScreenResumes s of
                  (s', r) \<Rightarrow> \<lparr>resume_ui = s', resume_pending = q @ sent r\<rparr>)
      | ResumesListed n body \<Rightarrow>
          if n < length q \<and> q ! n = ListResumes
          then \<lparr>resume_ui = loadResumes_success body s, resume_pending = drop_nth n q\<rparr>
          else p
      | ResumeUploaded n \<Rightarrow>
          if n < length q \<and> is_upload (q ! n)
          then (case resume_handleUpload_success s of
                  (s', r) \<Rightarrow> \<lparr>resume_ui = s', resume_pending = drop_nth n q @ sent r\<rparr>)
          else p
      | ResumesScreened n body \<Rightarrow>
          if n < length q \<and> is_screening (q ! n)
          then (case handleScreenResumes_success body s of
                  (s', r) \<Rightarrow> \<lparr>resume_ui = s', resume_pending = drop_nth n q @ sent r\<rparr>)
          else p
      | ResumeCallFailed n \<Rightarrow>
          if n < length q
          then \<lparr>resume_ui =
                  (case q ! n of
                     ListResumes \<Rightarrow> loadResumes_failure s
                   | UploadResume f \<Rightarrow> resume_handleUpload_failure s
                   | ScreenResumes d \<Rightarrow> handleScreenResumes_failure s),
                resume_pending = drop_nth n q\<rparr>
          else p)"

definition resume_run :: "resume_page \<Rightarrow> resume_event list \<Rightarrow> resume_page" where
  "resume_run p es = foldl resume_step p es"


section \<open>The document manager page\<close>

record document =
  document_id :: jsstring
  document_filename :: jsstring
  document_doc_type :: jsstring
  document_uploaded_at :: jsstring

record documents_state =
  documents :: "document list"
  documents_uploading :: bool
  docType :: jsstring
  documents_selectedFile :: "js_file option"

datatype documents_call =
    ListDocuments
  | UploadDocument js_file jsstring

definition documents_handleFileChange ::
  "js_file list \<Rightarrow> documents_state \<Rightarrow> documents_state" where
  "documents_handleFileChange files s =
     (case files of
        [] \<Rightarrow> s
      | f # _ \<Rightarrow>
          if accepted_name (file_name f) then s\<lparr>documents_selectedFile := Some f\<rparr> else s)"

definition loadDocuments_success ::
  "document list option \<Rightarrow> documents_state \<Rightarrow> documents_state" where
  "loadDocuments_success body s =
     s\<lparr>documents := (case body of None \<Rightarrow> [] | Some ds \<Rightarrow> ds)\<rparr>"

definition loadDocuments_failure :: "documents_state \<Rightarrow> documents_state" where
  "loadDocuments_failure s = s"

definition documents_handleUpload ::
  "documents_state \<Rightarrow> documents_state \<times> documents_call option" where
  "documents_handleUpload s =
     (case documents_selectedFile s of
        None \<Rightarrow> (s, None)
      | Some f \<Rightarrow> (s\<lparr>documents_uploading := True\<rparr>, Some (UploadDocument f (docType s))))"

definition documents_handleUpload_success ::
  "documents_state \<Rightarrow> documents_state \<times> documents_call option" where
  "documents_handleUpload_success s =
     (s\<lparr>documents_selectedFile := None, documents_uploading := False\<rparr>, Some ListDocuments)"

definition documents_handleUpload_failure :: "documents_state \<Rightarrow> documents_state" where
  "documents_handleUpload_failure s = s\<lparr>documents_uploading := False\<rparr>"

record documents_page =
  documents_ui :: documents_state
  documents_pending :: "documents_call list"

datatype documents_event =
    PickDocument "js_file list"
  | ChooseDocType jsstring
  | ClickUploadDocument
  | DocumentsListed nat "document list option"
  | DocumentUploaded nat
  | DocumentCallFailed nat

definition documents_init :: documents_page where
  "documents_init =
     \<lparr>documents_ui = \<lparr>documents = [], documents_uploading = False, docType = utf16 ''hr'',
                      documents_selectedFile = None\<rparr>,
      documents_pending = [ListDocuments]\<rparr>"

definition is_document_upload :: "documents_call \<Rightarrow> bool" where
  "is_document_upload c = (case c of UploadDocument f d \<Rightarrow> True | _ \<Rightarrow> False)"

definition documents_step :: "documents_page \<Rightarrow> documents_event \<Rightarrow> documents_page" where
  "documents_step p e =
     (let s = documents_ui p; q = documents_pending p in
      case e of
        PickDocument files \<Rightarrow> p\<lparr>documents_ui := documents_handleFileChange files s\<rparr>
      | ChooseDocType d \<Rightarrow> p\<lparr>documents_ui := s\<lparr>docType := d\<rparr>\<rparr>
      | ClickUploadDocument \<Rightarrow>
          if documents_uploading s \<or> documents_selectedFile s = None then p
          else (case documents_handleUpload s of
                  (s', r) \<Rightarrow> \<lparr>documents_ui = s', documents_pending = q @ sent r\<rparr>)
      | DocumentsListed n body \<Rightarrow>
          if n < length q \<and> q ! n = ListDocuments
          then \<lparr>documents_ui = loadDocuments_success body s,
                documents_pending = drop_nth n q\<rparr>
          else p
      | DocumentUploaded n \<Rightarrow>
          if n < length q \<and> is_document_upload (q ! n)
          then (case documents_handleUpload_success s of
                  (s', r) \<Rightarrow> \<lparr>documents_ui = s', documents_pending = drop_nth n q @ sent r\<rparr>)
          else p
      | DocumentCallFailed n \<Rightarrow>
          if n < length q
          then \<lparr>documents_ui =
                  (case q ! n of
                     ListDocuments \<Rightarrow> loadDocuments_failure s
                   | UploadDocument f d \<Rightarrow> documents_handleUpload_failure s),
                documents_pending = drop_nth n q\<rparr>
          else p)"

definition documents_run :: "documents_page \<Rightarrow> documents_event list \<Rightarrow> documents_page" where
  "documents_run p es = foldl documents_step p es"


section \<open>The chat page\<close>

datatype role = User | Assistant

record chat_turn =
  chat_role :: role
  chat_message :: jsstring
  chat_confidence :: "jsnumber option"
  chat_escalated :: "bool option"

record chat_state =
  chat_messages :: "chat_turn list"
  chat_input :: jsstring
  chat_loading :: bool
  chat_sessionId :: jsstring

record chat_request =
  chat_request_session_id :: jsstring
  chat_request_message :: jsstring

record chat_response =
  chat_response_response :: jsstring
  chat_response_confidence :: "jsnumber option"
  chat_response_escalated :: "bool option"

datatype chat_call =
    ChatHistory jsstring
  | ChatPost chat_request

text \<open>The initial value of \<open>sessionId\<close>, from the clock reading \<open>Date.now()\<close>.\<close>

definition chat_new_sessionId :: "int \<Rightarrow> jsstring" where
  "chat_new_sessionId now = utf16 ''session_'' @ Number_toString now"

text \<open>
  The history request of the mount effect replaces the transcript when the body has a
  \<open>messages\<close> property (an empty array is truthy as well).
\<close>

definition loadHistory_success :: "chat_turn list option \<Rightarrow> chat_state \<Rightarrow> chat_state" where
  "loadHistory_success body s =
     (case body of None \<Rightarrow> s | Some ms \<Rightarrow> s\<lparr>chat_messages := ms\<rparr>)"

definition loadHistory_failure :: "chat_state \<Rightarrow> chat_state" where
  "loadHistory_failure s = s"

definition chat_handleSend :: "chat_state \<Rightarrow> chat_state \<times> chat_call option" where
  "chat_handleSend s =
     (if \<not> truthy_string (trim (chat_input s)) \<or> chat_loading s then (s, None)
      else
        (s\<lparr>chat_input := [],
           chat_messages := chat_messages s @
             [\<lparr>chat_role = User, chat_message = chat_input s,
               chat_confidence = None, chat_escalated = None\<rparr>],
           chat_loading := True\<rparr>,
         Some (ChatPost \<lparr>chat_request_session_id = chat_sessionId s,
                         chat_request_message = chat_input s\<rparr>)))"

definition chat_handleSend_success :: "chat_response \<Rightarrow> chat_state \<Rightarrow> chat_state" where
  "chat_handleSend_success r s =
     s\<lparr>chat_messages := chat_messages s @
          [\<lparr>chat_role = Assistant, chat_message = chat_response_response r,
            chat_confidence = chat_response_confidence r,
            chat_escalated = chat_response_escalated r\<rparr>],
       chat_loading := False\<rparr>"

definition chat_handleSend_failure :: "chat_state \<Rightarrow> chat_state" where
  "chat_handleSend_failure s = s\<lparr>chat_loading := False\<rparr>"

record chat_page =
  chat_ui :: chat_state
  chat_pending :: "chat_call list"

datatype chat_event =
    ChatType jsstring
  | ChatSend
  | ChatAnswered nat chat_response
  | ChatHistoryLoaded nat "chat_turn list option"
  | ChatCallFailed nat

definition chat_init :: "jsstring \<Rightarrow> chat_page" where
  "chat_init sid =
     \<lparr>chat_ui = \<lparr>chat_messages = [], chat_input = [], chat_loading = False,
                 chat_sessionId = sid\<rparr>,
      chat_pending = [ChatHistory sid]\<rparr>"

definition is_post :: "chat_call \<Rightarrow> bool" where
  "is_post c = (case c of ChatHistory _ \<Rightarrow> False | ChatPost _ \<Rightarrow> True)"

text \<open>The input field is disabled while \<open>loading\<close> holds, so typing needs it false.\<close>

definition chat_step :: "chat_page \<Rightarrow> chat_event \<Rightarrow> chat_page" where
  "chat_step p e =
     (let s = chat_ui p; q = chat_pending p in
      case e of
        ChatType x \<Rightarrow> if chat_loading s then p else p\<lparr>chat_ui := s\<lparr>chat_input := x\<rparr>\<rparr>
      | ChatSend \<Rightarrow>
          (case chat_handleSend s of
             (s', r) \<Rightarrow> \<lparr>chat_ui = s', chat_pending = q @ sent r\<rparr>)
      | ChatAnswered n r \<Rightarrow>
          if n < length q \<and> is_post (q ! n)
          then \<lparr>chat_ui = chat_handleSend_success r s, chat_pending = drop_nth n q\<rparr>
          else p
      | ChatHistoryLoaded n body \<Rightarrow>
          if n < length q \<and> \<not> is_post (q ! n)
          then \<lparr>chat_ui = loadHistory_success body s, chat_pending = drop_nth n q\<rparr>
          else p
      | ChatCallFailed n \<Rightarrow>
          if n < length q
          then \<lparr>chat_ui = (if is_post (q ! n) then chat_handleSend_failure s
                           else loadHistory_failure s),
                chat_pending = drop_nth n q\<rparr>
          else p)"

definition chat_run :: "chat_page \<Rightarrow> chat_event list \<Rightarrow> chat_page" where
  "chat_run p es = foldl chat_step p es"


section \<open>The interview page\<close>

record interview_turn =
  turn_role :: role
  turn_content :: jsstring

record interview_evaluation =
  score :: "jsnumber option"
  feedback :: jsstring

record interview_state =
  sessionStarted :: bool
  candidateName :: jsstring
  position :: jsstring
  messages :: "interview_turn list"
  input :: jsstring
  loading :: bool
  completed :: bool
  evaluation :: "interview_evaluation option"
  sessionId :: jsstring

record interview_request =
  request_session_id :: jsstring
  request_candidate_name :: jsstring
  request_position :: jsstring
  request_message :: "jsstring option"

record interview_response =
  response_response :: jsstring
  response_completed :: "bool option"
  response_score :: "jsnumber option"

datatype interview_call =
    InterviewStart interview_request
  | InterviewAnswer interview_request

definition interview_new_sessionId :: "int \<Rightarrow> jsstring" where
  "interview_new_sessionId now = utf16 ''interview_'' @ Number_toString now"

definition startInterview :: "interview_state \<Rightarrow> interview_state \<times> interview_call option" where
  "startInterview s =
     (if \<not> truthy_string (trim (candidateName s)) \<or> \<not> truthy_string (trim (position s))
      then (s, None)
      else
        (s\<lparr>loading := True\<rparr>,
         Some (InterviewStart
           \<lparr>request_session_id = sessionId s, request_candidate_name = candidateName s,
            request_position = position s, request_message = None\<rparr>)))"

definition startInterview_success :: "interview_response \<Rightarrow> interview_state \<Rightarrow> interview_state" where
  "startInterview_success r s =
     s\<lparr>messages := [\<lparr>turn_role = Assistant, turn_content = response_response r\<rparr>],
       sessionStarted := True,
       loading := False\<rparr>"

definition startInterview_failure :: "interview_state \<Rightarrow> interview_state" where
  "startInterview_failure s = s\<lparr>loading := False\<rparr>"

definition interview_handleSend ::
  "interview_state \<Rightarrow> interview_state \<times> interview_call option" where
  "interview_handleSend s =
     (if \<not> truthy_string (trim (input s)) \<or> loading s \<or> completed s then (s, None)
      else
        (s\<lparr>input := [],
           messages := messages s @ [\<lparr>turn_role = User, turn_content = input s\<rparr>],
           loading := True\<rparr>,
         Some (InterviewAnswer
           \<lparr>request_session_id = sessionId s, request_candidate_name = candidateName s,
            request_position = position s, request_message = Some (input s)\<rparr>)))"

definition interview_handleSend_success ::
  "interview_response \<Rightarrow> interview_state \<Rightarrow> interview_state" where
  "interview_handleSend_success r s =
     (let s1 = s\<lparr>messages := messages s @
                   [\<lparr>turn_role = Assistant, turn_content = response_response r\<rparr>]\<rparr>;
          s2 = (if truthy_bool (response_completed r)
                then s1\<lparr>completed := True,
                        evaluation := Some \<lparr>score = response_score r,
                                            feedback = response_response r\<rparr>\<rparr>
                else s1)
      in s2\<lparr>loading := False\<rparr>)"

definition interview_handleSend_failure :: "interview_state \<Rightarrow> interview_state" where
  "interview_handleSend_failure s = s\<lparr>loading := False\<rparr>"

text \<open>
  What the view derives from the state. It shows the start form as long as
  \<open>sessionStarted\<close> is false, and the conversation afterwards; in the conversation the
  answer field is present while \<open>completed\<close> is false. The header of the
  conversation shows the final score by the expression
  \<open>completed && evaluation && evaluation.score.toFixed(0)\<close>: nothing while the
  interview is not completed or there is no evaluation, the number of the evaluation
  when it has one, and a \<open>TypeError\<close> thrown by the render when the score of the
  evaluation is \<open>undefined\<close>. (The text \<open>toFixed\<close> makes of the number is a
  matter of floating point printing and is not modelled: the number itself stands for
  it.) A message is drawn as the closing one when it is not the user's, the interview is
  completed and it is the last of the transcript.
\<close>

datatype phase = NotStarted | InProgress | Completed

definition phase :: "interview_state \<Rightarrow> phase" where
  "phase s =
     (if \<not> sessionStarted s then NotStarted
      else if completed s then Completed
      else InProgress)"

datatype js_error = TypeError

definition finalScore :: "interview_state \<Rightarrow> js_error + jsnumber option" where
  "finalScore s =
     (if sessionStarted s \<and> completed s
      then (case evaluation s of
              None \<Rightarrow> Inr None
            | Some ev \<Rightarrow> (case score ev of None \<Rightarrow> Inl TypeError | Some x \<Rightarrow> Inr (Some x)))
      else Inr None)"

definition isTerminal :: "interview_state \<Rightarrow> nat \<Rightarrow> bool" where
  "isTerminal s i \<longleftrightarrow>
     i < length (messages s) \<and> turn_role (messages s ! i) \<noteq> User \<and> completed s
     \<and> i = length (messages s) - 1"

text \<open>
  The controls as the user reaches them. The start button exists in the start form only
  and is disabled while \<open>loading\<close> holds; the answer controls exist in the conversation
  only, while \<open>completed\<close> is false.
\<close>

definition clickStart :: "interview_state \<Rightarrow> interview_state \<times> interview_call option" where
  "clickStart s = (if sessionStarted s \<or> loading s then (s, None) else startInterview s)"

definition submitAnswer :: "interview_state \<Rightarrow> interview_state \<times> interview_call option" where
  "submitAnswer s =
     (if \<not> sessionStarted s \<or> completed s then (s, None) else interview_handleSend s)"

record interview_page =
  interview_ui :: interview_state
  interview_pending :: "interview_call list"

datatype interview_event =
    TypeName jsstring
  | TypePosition jsstring
  | ClickStart
  | TypeAnswer jsstring
  | SubmitAnswer
  | Started nat interview_response
  | Answered nat interview_response
  | InterviewCallFailed nat

definition interview_init :: "jsstring \<Rightarrow> interview_page" where
  "interview_init sid =
     \<lparr>interview_ui =
        \<lparr>sessionStarted = False, candidateName = [], position = [], messages = [],
         input = [], loading = False, completed = False, evaluation = None,
         sessionId = sid\<rparr>,
      interview_pending = []\<rparr>"

definition is_start :: "interview_call \<Rightarrow> bool" where
  "is_start c = (case c of InterviewStart _ \<Rightarrow> True | InterviewAnswer _ \<Rightarrow> False)"

definition interview_step :: "interview_page \<Rightarrow> interview_event \<Rightarrow> interview_page" where
  "interview_step p e =
     (let s = interview_ui p; q = interview_pending p in
      case e of
        TypeName x \<Rightarrow>
          if sessionStarted s then p else p\<lparr>interview_ui := s\<lparr>candidateName := x\<rparr>\<rparr>
      | TypePosition x \<Rightarrow>
          if sessionStarted s then p else p\<lparr>interview_ui := s\<lparr>position := x\<rparr>\<rparr>
      | ClickStart \<Rightarrow>
          (case clickStart s of
             (s', r) \<Rightarrow> \<lparr>interview_ui = s', interview_pending = q @ sent r\<rparr>)
      | TypeAnswer x \<Rightarrow>
          if \<not> sessionStarted s \<or> completed s \<or> loading s then p
          else p\<lparr>interview_ui := s\<lparr>input := x\<rparr>\<rparr>
      | SubmitAnswer \<Rightarrow>
          (case submitAnswer s of
             (s', r) \<Rightarrow> \<lparr>interview_ui = s', interview_pending = q @ sent r\<rparr>)
      | Started n r \<Rightarrow>
          if n < length q \<and> is_start (q ! n)
          then \<lparr>interview_ui = startInterview_success r s, interview_pending = drop_nth n q\<rparr>
          else p
      | Answered n r \<Rightarrow>
          if n < length q \<and> \<not> is_start (q ! n)
          then \<lparr>interview_ui = interview_handleSend_success r s,
                interview_pending = drop_nth n q\<rparr>
          else p
      | InterviewCallFailed n \<Rightarrow>
          if n < length q
          then \<lparr>interview_ui = (if is_start (q ! n) then startInterview_failure s
                                else interview_handleSend_failure s),
                interview_pending = drop_nth n q\<rparr>
          else p)"

definition interview_run :: "interview_page \<Rightarrow> interview_event list \<Rightarrow> interview_page" where
  "interview_run p es = foldl interview_step p es"


section \<open>Invariants of the pages\<close>

text \<open>
  The interview page: at most one request is in flight, \<open>loading\<close> holds exactly while
  one is, a completed interview is a started one with nothing in flight, the evaluation
  exists exactly when the interview is completed, and the request in flight is a start
  before the interview has started and an answer afterwards.
\<close>

definition interview_inv :: "interview_page \<Rightarrow> bool" where
  "interview_inv p \<longleftrightarrow>
     (let s = interview_ui p; q = interview_pending p in
        length q \<le> 1
      \<and> (loading s \<longleftrightarrow> q \<noteq> [])
      \<and> (completed s \<longrightarrow> sessionStarted s \<and> q = [])
      \<and> (evaluation s \<noteq> None \<longleftrightarrow> completed s)
      \<and> (\<forall>c\<in>set q. is_start c \<longleftrightarrow> \<not> sessionStarted s))"

text \<open>
  The chat page: at most one \<open>/chat\<close> request is in flight, and \<open>loading\<close> holds
  exactly while one is. The history request of the mount effect is not an exchange.
\<close>

definition chat_inv :: "chat_page \<Rightarrow> bool" where
  "chat_inv p \<longleftrightarrow>
     length (filter is_post (chat_pending p)) \<le> 1
   \<and> (chat_loading (chat_ui p) \<longleftrightarrow> filter is_post (chat_pending p) \<noteq> [])"

text \<open>
  The upload views: the selected file, and every file of an upload in flight, has an
  accepted name.
\<close>

definition resume_inv :: "resume_page \<Rightarrow> bool" where
  "resume_inv p \<longleftrightarrow>
     (case selectedFile (resume_ui p) of
        None \<Rightarrow> True
      | Some f \<Rightarrow> accepted_name (file_name f))
   \<and> (\<forall>c\<in>set (resume_pending p).
         case c of UploadResume f \<Rightarrow> accepted_name (file_name f) | _ \<Rightarrow> True)"

definition documents_inv :: "documents_page \<Rightarrow> bool" where
  "documents_inv p \<longleftrightarrow>
     (case documents_selectedFile (documents_ui p) of
        None \<Rightarrow> True
      | Some f \<Rightarrow> accepted_name (file_name f))
   \<and> (\<forall>c\<in>set (documents_pending p).
         case c of UploadDocument f d \<Rightarrow> accepted_name (file_name f) | _ \<Rightarrow> True)"

section \<open>Example inputs\<close>

text \<open>
  The interview of the examples: Ada applies as a backend engineer, the engine opens
  with one question and closes after the first answer with the score 82.
\<close>

definition ada_opening :: interview_response where
  "ada_opening = \<lparr>response_response = utf16 ''Tell me about yourself'',
                   response_completed = Some False, response_score = None\<rparr>"

definition ada_closing :: interview_response where
  "ada_closing = \<lparr>response_response = utf16 ''Great, final score: 82'',
                   response_completed = Some True, response_score = Some 82\<rparr>"

definition ada_unscored :: interview_response where
  "ada_unscored = \<lparr>response_response = utf16 ''Thank you, that is all'',
                    response_completed = Some True, response_score = None\<rparr>"

definition ada_events :: "interview_event list" where
  "ada_events =
     [TypeName (utf16 ''Ada''), TypePosition (utf16 ''Backend Engineer''), ClickStart,
      Started 0 ada_opening, TypeAnswer (utf16 ''I have 5 years of experience''),
      SubmitAnswer]"



definition ada_started :: interview_state where
  "ada_started =
     \<lparr>sessionStarted = True, candidateName = utf16 ''Ada'',
      position = utf16 ''Backend Engineer'',
      messages = [\<lparr>turn_role = Assistant, turn_content = utf16 ''Tell me about yourself''\<rparr>],
      input = utf16 ''I have 5 years of experience'', loading = False, completed = False,
      evaluation = None, sessionId = utf16 ''interview_1700000000000''\<rparr>"

definition ada_busy :: interview_state where
  "ada_busy =
     \<lparr>sessionStarted = True, candidateName = utf16 ''Ada'',
      position = utf16 ''Backend Engineer'',
      messages = [\<lparr>turn_role = Assistant, turn_content = utf16 ''Tell me about yourself''\<rparr>,
                  \<lparr>turn_role = User, turn_content = utf16 ''I have 5 years of experience''\<rparr>],
      input = utf16 ''Also, I lead a team'', loading = True, completed = False,
      evaluation = None, sessionId = utf16 ''interview_1700000000000''\<rparr>"

definition ada_finished :: interview_state where
  "ada_finished =
     \<lparr>sessionStarted = True, candidateName = utf16 ''Ada'',
      position = utf16 ''Backend Engineer'',
      messages = [\<lparr>turn_role = Assistant, turn_content = utf16 ''Tell me about yourself''\<rparr>,
                  \<lparr>turn_role = User, turn_content = utf16 ''I have 5 years of experience''\<rparr>,
                  \<lparr>turn_role = Assistant, turn_content = utf16 ''Great, final score: 82''\<rparr>],
      input = utf16 ''One more thing'', loading = False, completed = True,
      evaluation = Some \<lparr>score = Some 82, feedback = utf16 ''Great, final score: 82''\<rparr>,
      sessionId = utf16 ''interview_1700000000000''\<rparr>"


definition chat_blank :: chat_state where
  "chat_blank =
     \<lparr>chat_messages = [], chat_input = [0x0020, 0x0009, 0x3000], chat_loading = False,
      chat_sessionId = utf16 ''session_1700000000000''\<rparr>"

definition chat_busy :: chat_state where
  "chat_busy =
     \<lparr>chat_messages = [\<lparr>chat_role = User,
                          chat_message = utf16 ''How many leave days do I have?'',
                          chat_confidence = None, chat_escalated = None\<rparr>],
      chat_input = utf16 ''And sick days?'', chat_loading = True,
      chat_sessionId = utf16 ''session_1700000000000''\<rparr>"




text \<open>A catalog whose first entry was screened with the score zero.\<close>

definition zero_scored :: resume_state where
  "zero_scored =
     \<lparr>resumes = [\<lparr>result_id = utf16 ''r1'', result_filename = utf16 ''a.pdf'',
                  result_score = Some 0, result_analysis = None\<rparr>,
                 \<lparr>result_id = utf16 ''r2'', result_filename = utf16 ''b.pdf'',
                  result_score = Some 74, result_analysis = None\<rparr>,
                 \<lparr>result_id = utf16 ''r3'', result_filename = utf16 ''c.docx'',
                  result_score = None, result_analysis = None\<rparr>],
      uploading = False, screening = False, selectedFile = None, jobDescription = [],
      screenResults = []\<rparr>"

definition cv_pdf :: js_file where
  "cv_pdf = \<lparr>file_name = utf16 ''cv.pdf'', file_bytes = [0x25, 0x50, 0x44, 0x46]\<rparr>"

definition notes_txt :: js_file where
  "notes_txt = \<lparr>file_name = utf16 ''notes.txt'', file_bytes = [0x68, 0x69]\<rparr>"

section \<open>Strings\<close>

text \<open>A string trims to the empty string exactly when all its code units are white space.\<close>

lemma trim_Nil_iff: "trim s = [] \<longleftrightarrow> (\<forall>u\<in>set s. isWhiteSpace u)"
proof -
  have "trim s = [] \<longleftrightarrow> (\<forall>u\<in>set (dropWhile isWhiteSpace s). isWhiteSpace u)"
    by (simp add: trim_def)
  also have "\<dots> \<longleftrightarrow> (\<forall>u\<in>set s. isWhiteSpace u)"
  proof
    assume a: "\<forall>u\<in>set (dropWhile isWhiteSpace s). isWhiteSpace u"
    have "dropWhile isWhiteSpace s = []"
    proof (cases "dropWhile isWhiteSpace s")
      case Nil
      then show ?thesis .
    next
      case (Cons x xs)
      then have "\<not> isWhiteSpace x"
        using hd_dropWhile[of isWhiteSpace s] by simp
      moreover have "isWhiteSpace x"
        using a Cons by simp
      ultimately show ?thesis by simp
    qed
    then show "\<forall>u\<in>set s. isWhiteSpace u"
      by (simp only: dropWhile_eq_Nil_conv)
  next
    assume "\<forall>u\<in>set s. isWhiteSpace u"
    then show "\<forall>u\<in>set (dropWhile isWhiteSpace s). isWhiteSpace u"
      by (meson set_dropWhileD)
  qed
  finally show ?thesis .
qed

text \<open>The decimal digits of a number determine it, and so does the printed integer.\<close>

lemma unat_unit: "k < 65536 \<Longrightarrow> unat (of_nat k :: 16 word) = k"
  by (simp add: unat_of_nat)

lemma digit_unit_inj:
  assumes "a < 10" and "b < 10"
    and "(of_nat (48 + a) :: 16 word) = of_nat (48 + b)"
  shows "a = b"
proof -
  have "48 + a = unat (of_nat (48 + a) :: 16 word)"
    using assms(1) by (intro unat_unit[symmetric]) simp
  also have "\<dots> = unat (of_nat (48 + b) :: 16 word)"
    by (rule arg_cong[OF assms(3)])
  also have "\<dots> = 48 + b"
    using assms(2) by (intro unat_unit) simp
  finally show ?thesis by simp
qed

lemma digit_unit_not_minus:
  assumes "a < 10"
  shows "(of_nat (48 + a) :: 16 word) \<noteq> 0x2D"
proof
  assume e: "(of_nat (48 + a) :: 16 word) = 0x2D"
  have "48 + a = unat (of_nat (48 + a) :: 16 word)"
    using assms by (intro unat_unit[symmetric]) simp
  also have "\<dots> = unat (0x2D :: 16 word)"
    by (rule arg_cong[OF e])
  also have "\<dots> = 45"
    by simp
  finally show False by simp
qed

lemma digits_nonempty: "digits n \<noteq> []"
  by (subst digits.simps) simp

lemma digits_last: "last (digits n) = of_nat (48 + n mod 10)"
  by (subst digits.simps) simp

lemma digits_butlast: "butlast (digits n) = (if n < 10 then [] else digits (n div 10))"
  by (subst digits.simps) simp

lemma digits_inj: "digits m = digits n \<Longrightarrow> m = n"
proof (induction m arbitrary: n rule: digits.induct)
  case (1 m)
  from "1.prems" have "last (digits m) = last (digits n)" by simp
  then have "(of_nat (48 + m mod 10) :: 16 word) = of_nat (48 + n mod 10)"
    by (simp only: digits_last)
  then have md: "m mod 10 = n mod 10"
    by (intro digit_unit_inj) simp_all
  from "1.prems" have "butlast (digits m) = butlast (digits n)" by simp
  then have bl: "(if m < 10 then [] else digits (m div 10)) =
                 (if n < 10 then [] else digits (n div 10))"
    by (simp only: digits_butlast)
  show ?case
  proof (cases "m < 10")
    case True
    with bl have "n < 10"
      using digits_nonempty[of "n div 10"] by (auto split: if_splits)
    with True md show ?thesis by simp
  next
    case False
    with bl have n: "\<not> n < 10"
      using digits_nonempty[of "m div 10"] by (auto split: if_splits)
    with False bl have "digits (m div 10) = digits (n div 10)" by simp
    with False have "m div 10 = n div 10"
      using "1.IH" by simp
    with md show ?thesis
      by (metis div_mult_mod_eq)
  qed
qed

lemma digits_hd_not_minus: "hd (digits n) \<noteq> 0x2D"
proof (induction n rule: digits.induct)
  case (1 n)
  show ?case
  proof (cases "n < 10")
    case True
    then have "digits n = [of_nat (48 + n)]" by (subst digits.simps) simp
    then have "hd (digits n) = of_nat (48 + n)" by (simp only: list.sel)
    then show ?thesis
      using digit_unit_not_minus[OF True] by metis
  next
    case False
    then have "digits n = digits (n div 10) @ [of_nat (48 + n mod 10)]"
      by (subst digits.simps) simp
    with False "1.IH" show ?thesis
      by (simp add: digits_nonempty)
  qed
qed

lemma Number_toString_inj: "Number_toString i = Number_toString j \<Longrightarrow> i = j"
proof -
  assume e: "Number_toString i = Number_toString j"
  have neg: False if "Number_toString a = Number_toString b" "a < 0" "\<not> b < 0" for a b
  proof -
    from that have "0x2D # digits (nat (- a)) = digits (nat b)"
      by (simp add: Number_toString_def)
    then have "hd (digits (nat b)) = 0x2D"
      by (metis list.sel(1))
    then show False
      using digits_hd_not_minus by blast
  qed
  show ?thesis
  proof (cases "i < 0")
    case True
    show ?thesis
    proof (cases "j < 0")
      case j: True
      with True e have "digits (nat (- i)) = digits (nat (- j))"
        by (simp add: Number_toString_def)
      then have "nat (- i) = nat (- j)" by (rule digits_inj)
      with True j show ?thesis by simp
    next
      case False
      with True e neg show ?thesis by blast
    qed
  next
    case False
    show ?thesis
    proof (cases "j < 0")
      case True
      with False e neg[of j i] show ?thesis by simp
    next
      case j: False
      with False e have "digits (nat i) = digits (nat j)"
        by (simp add: Number_toString_def)
      then have "nat i = nat j" by (rule digits_inj)
      with False j show ?thesis by simp
    qed
  qed
qed

text \<open>Removing one request from the list of those in flight.\<close>

lemma drop_nth_single: "drop_nth 0 [c] = []"
  by (simp add: drop_nth_def)

lemma set_drop_nth: "x \<in> set (drop_nth n q) \<Longrightarrow> x \<in> set q"
  by (auto simp: drop_nth_def dest: in_set_takeD in_set_dropD)

lemma filter_drop_nth_hit:
  assumes "n < length q" and "P (q ! n)"
  shows "length (filter P (drop_nth n q)) = length (filter P q) - 1"
proof -
  have "q = take n q @ q ! n # drop (Suc n) q"
    using assms(1) by (rule id_take_nth_drop)
  then have "filter P q = filter P (take n q) @ q ! n # filter P (drop (Suc n) q)"
    using assms(2) by (metis filter.simps(2) filter_append)
  then show ?thesis
    by (simp add: drop_nth_def)
qed

lemma filter_drop_nth_miss:
  assumes "n < length q" and "\<not> P (q ! n)"
  shows "filter P (drop_nth n q) = filter P q"
proof -
  have "q = take n q @ q ! n # drop (Suc n) q"
    using assms(1) by (rule id_take_nth_drop)
  then have "filter P q = filter P (take n q) @ filter P (drop (Suc n) q)"
    using assms(2) by (metis filter.simps(2) filter_append)
  then show ?thesis
    by (simp add: drop_nth_def)
qed

section \<open>Result reconciliation\<close>

text \<open>
  C1. When the last screening run has at least one entry, the displayed list is that
  run itself: the same entries in the same order, whatever the catalog holds.
\<close>

theorem displayResults_run_verbatim:
  "screenResults s \<noteq> [] \<Longrightarrow> displayResults s = screenResults s"
  by (simp add: displayResults_def)

theorem displayResults_run_verbatim_witness:
  "screenResults
     \<lparr>resumes = [\<lparr>result_id = utf16 ''r9'', result_filename = utf16 ''z.pdf'',
                  result_score = Some 99, result_analysis = None\<rparr>],
      uploading = False, screening = False, selectedFile = None, jobDescription = [],
      screenResults =
        [\<lparr>result_id = utf16 ''r1'', result_filename = utf16 ''a.pdf'',
          result_score = Some 91, result_analysis = None\<rparr>,
         \<lparr>result_id = utf16 ''r2'', result_filename = utf16 ''b.pdf'',
          result_score = Some 74, result_analysis = None\<rparr>]\<rparr> \<noteq> []
   \<and> displayResults
     \<lparr>resumes = [\<lparr>result_id = utf16 ''r9'', result_filename = utf16 ''z.pdf'',
                  result_score = Some 99, result_analysis = None\<rparr>],
      uploading = False, screening = False, selectedFile = None, jobDescription = [],
      screenResults =
        [\<lparr>result_id = utf16 ''r1'', result_filename = utf16 ''a.pdf'',
          result_score = Some 91, result_analysis = None\<rparr>,
         \<lparr>result_id = utf16 ''r2'', result_filename = utf16 ''b.pdf'',
          result_score = Some 74, result_analysis = None\<rparr>]\<rparr>
     = [\<lparr>result_id = utf16 ''r1'', result_filename = utf16 ''a.pdf'',
          result_score = Some 91, result_analysis = None\<rparr>,
        \<lparr>result_id = utf16 ''r2'', result_filename = utf16 ''b.pdf'',
          result_score = Some 74, result_analysis = None\<rparr>]"
  using displayResults_run_verbatim
    [of "\<lparr>resumes = [\<lparr>result_id = utf16 ''r9'', result_filename = utf16 ''z.pdf'',
                  result_score = Some 99, result_analysis = None\<rparr>],
      uploading = False, screening = False, selectedFile = None, jobDescription = [],
      screenResults =
        [\<lparr>result_id = utf16 ''r1'', result_filename = utf16 ''a.pdf'',
          result_score = Some 91, result_analysis = None\<rparr>,
         \<lparr>result_id = utf16 ''r2'', result_filename = utf16 ''b.pdf'',
          result_score = Some 74, result_analysis = None\<rparr>]\<rparr>"]
  by simp

text \<open>
  Without a screening run the displayed list is the catalog filtered by the truthiness
  of the score: an entry stays when it has a score and the score is not zero.
\<close>

lemma displayResults_fallback:
  "screenResults s = [] \<Longrightarrow>
     displayResults s = filter (\<lambda>r. \<exists>x. result_score r = Some x \<and> x \<noteq> 0) (resumes s)"
  unfolding displayResults_def truthy_number_def
  by (auto intro!: filter_cong split: option.splits)

text \<open>
  C2. With an empty screening run the claim asks for the catalog entries that have a
  defined score, in catalog order. The filter tests the score for truthiness, so an
  entry whose score is the number zero is dropped although its score is defined: of the
  three entries of \<open>zero_scored\<close> two have a score, and one is displayed.
\<close>

theorem displayResults_zero_score_omitted:
  "screenResults zero_scored = []
 \<and> filter (\<lambda>r. result_score r \<noteq> None) (resumes zero_scored) =
     [\<lparr>result_id = utf16 ''r1'', result_filename = utf16 ''a.pdf'',
       result_score = Some 0, result_analysis = None\<rparr>,
      \<lparr>result_id = utf16 ''r2'', result_filename = utf16 ''b.pdf'',
       result_score = Some 74, result_analysis = None\<rparr>]
 \<and> displayResults zero_scored =
     [\<lparr>result_id = utf16 ''r2'', result_filename = utf16 ''b.pdf'',
       result_score = Some 74, result_analysis = None\<rparr>]"
  by (simp add: displayResults_def truthy_number_def zero_scored_def)

section \<open>The interview state machine\<close>

lemmas interview_handler_defs =
  clickStart_def submitAnswer_def startInterview_def interview_handleSend_def
  startInterview_success_def startInterview_failure_def
  interview_handleSend_success_def interview_handleSend_failure_def

lemma interview_inv_init: "interview_inv (interview_init sid)"
  by (simp add: interview_inv_def interview_init_def)

lemma interview_inv_step_idle:
  assumes "interview_inv p" and "interview_pending p = []"
  shows "interview_inv (interview_step p e)"
  using assms
  by (cases e)
     (auto simp: interview_inv_def interview_step_def interview_handler_defs sent_def
        is_start_def Let_def)

lemma interview_inv_step_busy:
  assumes "interview_inv p" and "interview_pending p = [c]"
  shows "interview_inv (interview_step p e)"
  using assms
  by (cases e)
     (auto simp: interview_inv_def interview_step_def interview_handler_defs sent_def
        is_start_def Let_def drop_nth_single)

lemma interview_inv_step: "interview_inv p \<Longrightarrow> interview_inv (interview_step p e)"
proof -
  assume i: "interview_inv p"
  then have "length (interview_pending p) \<le> 1"
    by (simp add: interview_inv_def Let_def)
  then consider "interview_pending p = []" | c where "interview_pending p = [c]"
    by (cases "interview_pending p") auto
  then show ?thesis
    using i interview_inv_step_idle interview_inv_step_busy by cases blast+
qed

lemma interview_inv_run: "interview_inv p \<Longrightarrow> interview_inv (interview_run p es)"
  unfolding interview_run_def
  by (induction es arbitrary: p) (simp_all add: interview_inv_step)

text \<open>Once the interview is completed no event changes the evaluation.\<close>

lemma interview_completed_step:
  assumes "interview_inv p" and "completed (interview_ui p)"
  shows "completed (interview_ui (interview_step p e))
       \<and> evaluation (interview_ui (interview_step p e)) = evaluation (interview_ui p)"
  using assms
  by (cases e)
     (auto simp: interview_inv_def interview_step_def interview_handler_defs sent_def Let_def)

lemma interview_completed_run:
  assumes "interview_inv p" and "completed (interview_ui p)"
  shows "completed (interview_ui (interview_run p es))
       \<and> evaluation (interview_ui (interview_run p es)) = evaluation (interview_ui p)"
  using assms unfolding interview_run_def
proof (induction es arbitrary: p)
  case Nil
  then show ?case by simp
next
  case (Cons e es)
  have "interview_inv (interview_step p e)"
    using Cons.prems(1) by (rule interview_inv_step)
  moreover have c: "completed (interview_ui (interview_step p e))
      \<and> evaluation (interview_ui (interview_step p e)) = evaluation (interview_ui p)"
    using Cons.prems by (rule interview_completed_step)
  ultimately show ?case
    using Cons.IH[of "interview_step p e"] by simp
qed

lemma finalScore_shown:
  "sessionStarted s \<Longrightarrow> completed s \<Longrightarrow> evaluation s = Some ev \<Longrightarrow> score ev = Some x \<Longrightarrow>
     finalScore s = Inr (Some x)"
  by (simp add: finalScore_def)

lemma interview_answer_pending:
  assumes "interview_inv p" and "n < length (interview_pending p)"
  shows "n = 0 \<and> interview_pending p = [interview_pending p ! 0]
       \<and> \<not> completed (interview_ui p) \<and> evaluation (interview_ui p) = None"
proof -
  from assms have l: "length (interview_pending p) = 1"
    by (simp add: interview_inv_def Let_def)
  then obtain c where c: "interview_pending p = [c]"
    by (cases "interview_pending p") auto
  with assms show ?thesis
    by (auto simp: interview_inv_def Let_def)
qed

lemma interview_completion_step:
  assumes i: "interview_inv p" and n: "n < length (interview_pending p)"
    and a: "\<not> is_start (interview_pending p ! n)" and t: "truthy_bool (response_completed r)"
  shows "phase (interview_ui (interview_step p (Answered n r))) = Completed"
    and "evaluation (interview_ui (interview_step p (Answered n r))) =
           Some \<lparr>score = response_score r, feedback = response_response r\<rparr>"
    and "messages (interview_ui (interview_step p (Answered n r))) =
           messages (interview_ui p) @
             [\<lparr>turn_role = Assistant, turn_content = response_response r\<rparr>]"
    and "isTerminal (interview_ui (interview_step p (Answered n r)))
           (length (messages (interview_ui p)))"
    and "evaluation (interview_ui p) = None"
proof -
  from interview_answer_pending[OF i n]
  have n0: "n = 0" and q: "interview_pending p = [interview_pending p ! 0]"
    and e: "evaluation (interview_ui p) = None"
    by simp_all
  have st: "sessionStarted (interview_ui p)"
    using i a n0 q by (auto simp: interview_inv_def Let_def)
  have u: "interview_ui (interview_step p (Answered n r)) =
           interview_handleSend_success r (interview_ui p)"
    using n a by (simp add: interview_step_def Let_def)
  show "phase (interview_ui (interview_step p (Answered n r))) = Completed"
    using st t by (simp add: u phase_def interview_handleSend_success_def Let_def)
  show "evaluation (interview_ui (interview_step p (Answered n r))) =
           Some \<lparr>score = response_score r, feedback = response_response r\<rparr>"
    using t by (simp add: u interview_handleSend_success_def Let_def)
  show "messages (interview_ui (interview_step p (Answered n r))) =
           messages (interview_ui p) @
             [\<lparr>turn_role = Assistant, turn_content = response_response r\<rparr>]"
    by (simp add: u interview_handleSend_success_def Let_def)
  show "isTerminal (interview_ui (interview_step p (Answered n r)))
           (length (messages (interview_ui p)))"
    using t by (simp add: u isTerminal_def interview_handleSend_success_def Let_def)
  show "evaluation (interview_ui p) = None"
    using e .
qed

lemma interview_run_snoc:
  "interview_run p (es @ [e]) = interview_step (interview_run p es) e"
  by (simp add: interview_run_def)

lemma ada_run:
  "interview_run (interview_init (interview_new_sessionId 1700000000000)) ada_events =
     \<lparr>interview_ui =
        \<lparr>sessionStarted = True, candidateName = utf16 ''Ada'',
         position = utf16 ''Backend Engineer'',
         messages = [\<lparr>turn_role = Assistant, turn_content = utf16 ''Tell me about yourself''\<rparr>,
                     \<lparr>turn_role = User, turn_content = utf16 ''I have 5 years of experience''\<rparr>],
         input = [], loading = True, completed = False, evaluation = None,
         sessionId = utf16 ''interview_1700000000000''\<rparr>,
      interview_pending =
        [InterviewAnswer
           \<lparr>request_session_id = utf16 ''interview_1700000000000'',
            request_candidate_name = utf16 ''Ada'',
            request_position = utf16 ''Backend Engineer'',
            request_message = Some (utf16 ''I have 5 years of experience'')\<rparr>]\<rparr>"
  by (simp add: interview_run_def interview_init_def ada_events_def ada_opening_def
      interview_step_def interview_handler_defs sent_def drop_nth_def is_start_def
      truthy_string_def trim_def isWhiteSpace_def utf16_def interview_new_sessionId_def
      Number_toString_def Let_def)

text \<open>
  The evaluation over the life of an interview. In every state the page reaches from
  its mount the evaluation exists exactly when the phase is completed. When the response
  to the answer in flight indicates completion, the evaluation, absent until then,
  becomes the score and the text of the response, the phase becomes completed, and the
  turn of the response is appended last and is the one drawn as the closing turn. From a
  completed state on, whatever events follow, the phase stays completed and the
  evaluation stays the same.
\<close>

lemma interview_evaluation_lifecycle:
  assumes p: "p = interview_run (interview_init sid) es"
  shows "(evaluation (interview_ui p) \<noteq> None \<longleftrightarrow> phase (interview_ui p) = Completed)
    \<and> (\<forall>n r. n < length (interview_pending p) \<and> \<not> is_start (interview_pending p ! n)
             \<and> truthy_bool (response_completed r) \<longrightarrow>
          evaluation (interview_ui p) = None
        \<and> phase (interview_ui (interview_step p (Answered n r))) = Completed
        \<and> evaluation (interview_ui (interview_step p (Answered n r))) =
            Some \<lparr>score = response_score r, feedback = response_response r\<rparr>
        \<and> messages (interview_ui (interview_step p (Answered n r))) =
            messages (interview_ui p) @
              [\<lparr>turn_role = Assistant, turn_content = response_response r\<rparr>]
        \<and> isTerminal (interview_ui (interview_step p (Answered n r)))
            (length (messages (interview_ui p))))
    \<and> (phase (interview_ui p) = Completed \<longrightarrow>
          (\<forall>es'. phase (interview_ui (interview_run p es')) = Completed
               \<and> evaluation (interview_ui (interview_run p es')) = evaluation (interview_ui p)))"
proof -
  have i: "interview_inv p"
    unfolding p by (rule interview_inv_run) (rule interview_inv_init)
  have a: "evaluation (interview_ui p) \<noteq> None \<longleftrightarrow> phase (interview_ui p) = Completed"
    using i by (auto simp: phase_def interview_inv_def Let_def)
  have c: "phase (interview_ui (interview_run p es')) = Completed
         \<and> evaluation (interview_ui (interview_run p es')) = evaluation (interview_ui p)"
    if "phase (interview_ui p) = Completed" for es'
  proof -
    from that have d: "completed (interview_ui p)"
      by (simp add: phase_def split: if_splits)
    have i': "interview_inv (interview_run p es')"
      using i by (rule interview_inv_run)
    from interview_completed_run[OF i d, of es'] i' show ?thesis
      by (simp add: phase_def interview_inv_def Let_def)
  qed
  show ?thesis
    using a c interview_completion_step[OF i] by blast
qed

text \<open>
  C3. The final score should be defined exactly when the phase is completed. The
  handler copies the score of the completing response without looking at it: when the
  response indicates completion and carries no score, the phase becomes completed, the
  evaluation holds an undefined score, and the header's read of the final score throws.
  With the score 82 in the response the same run shows 82.
\<close>

theorem completion_without_score:
  "phase (interview_ui
      (interview_run (interview_init (interview_new_sessionId 1700000000000))
         (ada_events @ [Answered 0 ada_unscored]))) = Completed
 \<and> evaluation (interview_ui
      (interview_run (interview_init (interview_new_sessionId 1700000000000))
         (ada_events @ [Answered 0 ada_unscored]))) =
     Some \<lparr>score = None, feedback = utf16 ''Thank you, that is all''\<rparr>
 \<and> finalScore (interview_ui
      (interview_run (interview_init (interview_new_sessionId 1700000000000))
         (ada_events @ [Answered 0 ada_unscored]))) = Inl TypeError
 \<and> finalScore (interview_ui
      (interview_run (interview_init (interview_new_sessionId 1700000000000))
         (ada_events @ [Answered 0 ada_closing]))) = Inr (Some 82)"
  by (simp add: interview_run_snoc ada_run interview_step_def is_start_def ada_unscored_def
      ada_closing_def interview_handleSend_success_def truthy_bool_def drop_nth_def
      phase_def finalScore_def Let_def)

lemma interview_no_start_pending:
  assumes "interview_inv p" and "sessionStarted (interview_ui p)"
  shows "\<forall>c\<in>set (interview_pending p). \<not> is_start c"
  using assms by (simp add: interview_inv_def Let_def)

text \<open>
  C4. Once the phase is not not-started the view no longer offers the start control,
  so a start action on the page is rejected as a no-op: no request is sent, no turn is
  appended and the state is unchanged. In every state the page reaches from its mount
  with a phase other than not-started, no start request is in flight either.
\<close>

theorem start_control_withdrawn:
  "(phase (interview_ui p) \<noteq> NotStarted \<longrightarrow>
      clickStart (interview_ui p) = (interview_ui p, None) \<and> interview_step p ClickStart = p)
 \<and> (phase (interview_ui (interview_run (interview_init sid) es)) \<noteq> NotStarted \<longrightarrow>
      (\<forall>c\<in>set (interview_pending (interview_run (interview_init sid) es)). \<not> is_start c))"
proof -
  have 1: "clickStart (interview_ui p) = (interview_ui p, None) \<and> interview_step p ClickStart = p"
    if "phase (interview_ui p) \<noteq> NotStarted"
    using that
    by (simp add: phase_def clickStart_def interview_step_def sent_def Let_def split: if_splits)
  have i: "interview_inv (interview_run (interview_init sid) es)"
    by (rule interview_inv_run) (rule interview_inv_init)
  have 2: "\<forall>c\<in>set (interview_pending (interview_run (interview_init sid) es)). \<not> is_start c"
    if "phase (interview_ui (interview_run (interview_init sid) es)) \<noteq> NotStarted"
  proof -
    from that have "sessionStarted (interview_ui (interview_run (interview_init sid) es))"
      by (simp add: phase_def split: if_splits)
    with i show ?thesis
      by (rule interview_no_start_pending)
  qed
  from 1 2 show ?thesis by blast
qed

theorem start_control_withdrawn_witness:
  "phase (interview_ui \<lparr>interview_ui = ada_started, interview_pending = []\<rparr>) \<noteq> NotStarted
 \<and> clickStart ada_started = (ada_started, None)
 \<and> interview_step \<lparr>interview_ui = ada_started, interview_pending = []\<rparr> ClickStart
     = \<lparr>interview_ui = ada_started, interview_pending = []\<rparr>
 \<and> phase (interview_ui
      (interview_run (interview_init (interview_new_sessionId 1700000000000)) ada_events))
     \<noteq> NotStarted
 \<and> list_all (\<lambda>c. \<not> is_start c) (interview_pending
      (interview_run (interview_init (interview_new_sessionId 1700000000000)) ada_events))"
proof -
  have h: "phase (interview_ui \<lparr>interview_ui = ada_started, interview_pending = []\<rparr>)
           \<noteq> NotStarted"
    by (simp add: phase_def ada_started_def)
  have k: "phase (interview_ui
      (interview_run (interview_init (interview_new_sessionId 1700000000000)) ada_events))
     \<noteq> NotStarted"
    by (simp add: ada_run phase_def)
  from start_control_withdrawn
         [of "\<lparr>interview_ui = ada_started, interview_pending = []\<rparr>"
             "interview_new_sessionId 1700000000000" ada_events] h k
  show ?thesis
    by (simp add: list_all_iff)
qed

text \<open>
  C6. An answer submitted when the interview is completed is rejected: the handler
  returns the state as it was and sends no request.
\<close>

theorem answer_after_completion_rejected:
  "completed s \<Longrightarrow> interview_handleSend s = (s, None)"
  by (simp add: interview_handleSend_def)

theorem answer_after_completion_rejected_witness:
  "completed ada_finished \<and> trim (input ada_finished) \<noteq> []
 \<and> interview_handleSend ada_finished = (ada_finished, None)"
proof -
  have c: "completed ada_finished"
    by (simp add: ada_finished_def)
  have t: "trim (input ada_finished) \<noteq> []"
    by (simp add: ada_finished_def trim_def utf16_def isWhiteSpace_def)
  from answer_after_completion_rejected[OF c] c t show ?thesis
    by simp
qed

section \<open>The chat exchange\<close>

text \<open>
  C7. A chat message that trims to the empty string, that is an empty one or one of
  white space only, is rejected: the handler returns the state as it was, transcript
  included, and sends no request.
\<close>

theorem chat_blank_rejected:
  "trim (chat_input s) = [] \<Longrightarrow> chat_handleSend s = (s, None)"
  by (simp add: chat_handleSend_def truthy_string_def)

theorem chat_blank_rejected_witness:
  "trim (chat_input chat_blank) = [] \<and> chat_input chat_blank \<noteq> []
 \<and> chat_handleSend chat_blank = (chat_blank, None)"
proof -
  have t: "trim (chat_input chat_blank) = []"
    by (simp add: chat_blank_def trim_def isWhiteSpace_def)
  have n: "chat_input chat_blank \<noteq> []"
    by (simp add: chat_blank_def)
  from chat_blank_rejected[OF t] t n show ?thesis
    by simp
qed

lemma filter_nth_nonempty: "n < length q \<Longrightarrow> P (q ! n) \<Longrightarrow> filter P q \<noteq> []"
  by (metis filter_empty_conv nth_mem)

lemma chat_inv_init: "chat_inv (chat_init sid)"
  by (simp add: chat_inv_def chat_init_def is_post_def)

lemma chat_inv_step: "chat_inv p \<Longrightarrow> chat_inv (chat_step p e)"
proof (cases e)
  case (ChatType x)
  assume "chat_inv p"
  then show ?thesis
    by (simp add: ChatType chat_inv_def chat_step_def Let_def)
next
  case ChatSend
  assume "chat_inv p"
  then show ?thesis
    by (auto simp: ChatSend chat_inv_def chat_step_def chat_handleSend_def sent_def
        is_post_def Let_def)
next
  case (ChatAnswered n r)
  assume i: "chat_inv p"
  show ?thesis
  proof (cases "n < length (chat_pending p) \<and> is_post (chat_pending p ! n)")
    case True
    then have "length (filter is_post (drop_nth n (chat_pending p))) =
        length (filter is_post (chat_pending p)) - 1"
      by (simp add: filter_drop_nth_hit)
    with i have "filter is_post (drop_nth n (chat_pending p)) = []"
      by (simp add: chat_inv_def)
    with True show ?thesis
      by (simp add: ChatAnswered chat_inv_def chat_step_def chat_handleSend_success_def Let_def)
  next
    case False
    with i show ?thesis
      by (auto simp: ChatAnswered chat_step_def Let_def)
  qed
next
  case (ChatHistoryLoaded n body)
  assume i: "chat_inv p"
  show ?thesis
  proof (cases "n < length (chat_pending p) \<and> \<not> is_post (chat_pending p ! n)")
    case True
    then have "filter is_post (drop_nth n (chat_pending p)) = filter is_post (chat_pending p)"
      by (simp add: filter_drop_nth_miss)
    with True i show ?thesis
      by (simp add: ChatHistoryLoaded chat_inv_def chat_step_def loadHistory_success_def Let_def
          split: option.splits)
  next
    case False
    with i show ?thesis
      by (auto simp: ChatHistoryLoaded chat_step_def Let_def)
  qed
next
  case (ChatCallFailed n)
  assume i: "chat_inv p"
  show ?thesis
  proof (cases "n < length (chat_pending p)")
    case n: True
    show ?thesis
    proof (cases "is_post (chat_pending p ! n)")
      case True
      with n have "length (filter is_post (drop_nth n (chat_pending p))) =
          length (filter is_post (chat_pending p)) - 1"
        by (simp add: filter_drop_nth_hit)
      with i have "filter is_post (drop_nth n (chat_pending p)) = []"
        by (simp add: chat_inv_def)
      with True n show ?thesis
        by (simp add: ChatCallFailed chat_inv_def chat_step_def chat_handleSend_failure_def
            Let_def)
    next
      case False
      with n have "filter is_post (drop_nth n (chat_pending p)) = filter is_post (chat_pending p)"
        by (simp add: filter_drop_nth_miss)
      with False n i show ?thesis
        by (simp add: ChatCallFailed chat_inv_def chat_step_def loadHistory_failure_def Let_def)
    qed
  next
    case False
    with i show ?thesis
      by (auto simp: ChatCallFailed chat_step_def Let_def)
  qed
qed

lemma chat_inv_run: "chat_inv p \<Longrightarrow> chat_inv (chat_run p es)"
  unfolding chat_run_def
  by (induction es arbitrary: p) (simp_all add: chat_inv_step)

lemma chat_hello_run:
  "chat_run (chat_init (utf16 ''session_1700000000000'')) [ChatType (utf16 ''hello''), ChatSend] =
     \<lparr>chat_ui =
        \<lparr>chat_messages = [\<lparr>chat_role = User, chat_message = utf16 ''hello'',
                             chat_confidence = None, chat_escalated = None\<rparr>],
         chat_input = [], chat_loading = True,
         chat_sessionId = utf16 ''session_1700000000000''\<rparr>,
      chat_pending =
        [ChatHistory (utf16 ''session_1700000000000''),
         ChatPost \<lparr>chat_request_session_id = utf16 ''session_1700000000000'',
                   chat_request_message = utf16 ''hello''\<rparr>]\<rparr>"
  by (simp add: chat_run_def chat_init_def chat_step_def chat_handleSend_def sent_def
      truthy_string_def trim_def isWhiteSpace_def utf16_def Let_def)

text \<open>
  C8. On both pages a send while \<open>loading\<close> holds is rejected, whatever the input: the
  state, transcript included, is returned as it was and no request is sent. In every
  state a page reaches from its mount at most one exchange is in flight, and
  \<open>loading\<close> holds whenever one is; so a send issued while an exchange is pending is
  rejected, not queued.
\<close>

theorem one_exchange_in_flight:
  "(chat_loading s \<longrightarrow> chat_handleSend s = (s, None))
 \<and> (loading t \<longrightarrow> interview_handleSend t = (t, None))
 \<and> length (filter is_post (chat_pending (chat_run (chat_init sid) es))) \<le> 1
 \<and> (filter is_post (chat_pending (chat_run (chat_init sid) es)) \<noteq> [] \<longrightarrow>
      chat_loading (chat_ui (chat_run (chat_init sid) es)))
 \<and> length (interview_pending (interview_run (interview_init sid') es')) \<le> 1
 \<and> (interview_pending (interview_run (interview_init sid') es') \<noteq> [] \<longrightarrow>
      loading (interview_ui (interview_run (interview_init sid') es')))"
proof -
  have c: "chat_inv (chat_run (chat_init sid) es)"
    by (rule chat_inv_run) (rule chat_inv_init)
  have i: "interview_inv (interview_run (interview_init sid') es')"
    by (rule interview_inv_run) (rule interview_inv_init)
  have 1: "chat_loading s \<longrightarrow> chat_handleSend s = (s, None)"
    by (simp add: chat_handleSend_def)
  have 2: "loading t \<longrightarrow> interview_handleSend t = (t, None)"
    by (simp add: interview_handleSend_def)
  from c have 3: "length (filter is_post (chat_pending (chat_run (chat_init sid) es))) \<le> 1"
    and 4: "filter is_post (chat_pending (chat_run (chat_init sid) es)) \<noteq> [] \<longrightarrow>
      chat_loading (chat_ui (chat_run (chat_init sid) es))"
    by (simp_all add: chat_inv_def)
  from i have 5: "length (interview_pending (interview_run (interview_init sid') es')) \<le> 1"
    and 6: "interview_pending (interview_run (interview_init sid') es') \<noteq> [] \<longrightarrow>
      loading (interview_ui (interview_run (interview_init sid') es'))"
    by (simp_all add: interview_inv_def Let_def)
  from 1 2 3 4 5 6 show ?thesis by blast
qed

theorem one_exchange_in_flight_witness:
  "chat_loading chat_busy \<and> trim (chat_input chat_busy) \<noteq> []
 \<and> chat_handleSend chat_busy = (chat_busy, None)
 \<and> loading ada_busy \<and> trim (input ada_busy) \<noteq> []
 \<and> interview_handleSend ada_busy = (ada_busy, None)
 \<and> filter is_post (chat_pending (chat_run (chat_init (utf16 ''session_1700000000000''))
       [ChatType (utf16 ''hello''), ChatSend])) \<noteq> []
 \<and> chat_loading (chat_ui (chat_run (chat_init (utf16 ''session_1700000000000''))
       [ChatType (utf16 ''hello''), ChatSend]))
 \<and> interview_pending
      (interview_run (interview_init (interview_new_sessionId 1700000000000)) ada_events) \<noteq> []
 \<and> loading (interview_ui
      (interview_run (interview_init (interview_new_sessionId 1700000000000)) ada_events))"
proof -
  have a: "chat_loading chat_busy" and b: "trim (chat_input chat_busy) \<noteq> []"
    by (simp_all add: chat_busy_def trim_def utf16_def isWhiteSpace_def)
  have c: "loading ada_busy" and d: "trim (input ada_busy) \<noteq> []"
    by (simp_all add: ada_busy_def trim_def utf16_def isWhiteSpace_def)
  have e: "filter is_post (chat_pending (chat_run (chat_init (utf16 ''session_1700000000000''))
       [ChatType (utf16 ''hello''), ChatSend])) \<noteq> []"
    by (simp add: chat_hello_run is_post_def)
  have f: "interview_pending
      (interview_run (interview_init (interview_new_sessionId 1700000000000)) ada_events) \<noteq> []"
    by (simp add: ada_run)
  from one_exchange_in_flight
         [of chat_busy ada_busy "utf16 ''session_1700000000000''"
             "[ChatType (utf16 ''hello''), ChatSend]"
             "interview_new_sessionId 1700000000000" ada_events]
       a b c d e f
  show ?thesis by blast
qed

section \<open>Failed requests\<close>


















section \<open>Session identifiers\<close>

lemma chat_step_sessionId:
  "chat_sessionId (chat_ui (chat_step p e)) = chat_sessionId (chat_ui p)"
  by (cases e)
     (simp_all add: chat_step_def chat_handleSend_def chat_handleSend_success_def
        chat_handleSend_failure_def loadHistory_success_def loadHistory_failure_def Let_def
        split: option.splits)

lemma chat_run_sessionId:
  "chat_sessionId (chat_ui (chat_run p es)) = chat_sessionId (chat_ui p)"
  unfolding chat_run_def
  by (induction es arbitrary: p) (simp_all add: chat_step_sessionId)

lemma interview_step_sessionId:
  "sessionId (interview_ui (interview_step p e)) = sessionId (interview_ui p)"
  by (cases e)
     (simp_all add: interview_step_def clickStart_def submitAnswer_def startInterview_def
        interview_handleSend_def startInterview_success_def startInterview_failure_def
        interview_handleSend_success_def interview_handleSend_failure_def Let_def)

lemma interview_run_sessionId:
  "sessionId (interview_ui (interview_run p es)) = sessionId (interview_ui p)"
  unfolding interview_run_def
  by (induction es arbitrary: p) (simp_all add: interview_step_sessionId)

text \<open>
  C9 as stated: the identifiers of two creations differ. Two chat pages mounted at the
  same clock reading get the same identifier.
\<close>

theorem sessionId_counterexample:
  "chat_new_sessionId 1700000000000 = utf16 ''session_1700000000000''
 \<and> \<not> distinct (map chat_new_sessionId [1700000000000, 1700000000000])"
  by (simp add: chat_new_sessionId_def Number_toString_def utf16_def)

text \<open>
  C9, amended. The identifier is computed once, when the page mounts, from the kind of
  page and the clock reading, and no event of the page changes it. Two creations of one
  kind get the same identifier exactly when their clock readings are the same
  millisecond, and a chat identifier is never an interview identifier.
\<close>

theorem sessionId_from_clock:
  "(chat_new_sessionId t = chat_new_sessionId t' \<longleftrightarrow> t = t')
 \<and> (interview_new_sessionId t = interview_new_sessionId t' \<longleftrightarrow> t = t')
 \<and> chat_new_sessionId t \<noteq> interview_new_sessionId t'
 \<and> chat_sessionId (chat_ui (chat_run (chat_init (chat_new_sessionId t)) es))
     = chat_new_sessionId t
 \<and> sessionId (interview_ui (interview_run (interview_init (interview_new_sessionId t)) es'))
     = interview_new_sessionId t"
proof -
  have 1: "chat_new_sessionId t = chat_new_sessionId t' \<longleftrightarrow> t = t'"
    by (auto simp: chat_new_sessionId_def dest: Number_toString_inj)
  have 2: "interview_new_sessionId t = interview_new_sessionId t' \<longleftrightarrow> t = t'"
    by (auto simp: interview_new_sessionId_def dest: Number_toString_inj)
  have 3: "chat_new_sessionId t \<noteq> interview_new_sessionId t'"
    by (simp add: chat_new_sessionId_def interview_new_sessionId_def utf16_def)
  have 4: "chat_sessionId (chat_ui (chat_run (chat_init (chat_new_sessionId t)) es))
     = chat_new_sessionId t"
    by (simp add: chat_run_sessionId chat_init_def)
  have 5: "sessionId (interview_ui
        (interview_run (interview_init (interview_new_sessionId t)) es'))
     = interview_new_sessionId t"
    by (simp add: interview_run_sessionId interview_init_def)
  from 1 2 3 4 5 show ?thesis by blast
qed

theorem sessionId_from_clock_witness:
  "chat_new_sessionId 1700000000000 \<noteq> chat_new_sessionId 1700000000001
 \<and> interview_new_sessionId 1700000000000 \<noteq> interview_new_sessionId 1700000000001
 \<and> chat_new_sessionId 1700000000000 \<noteq> interview_new_sessionId 1700000000001
 \<and> chat_sessionId (chat_ui (chat_run (chat_init (chat_new_sessionId 1700000000000))
       [ChatType (utf16 ''hello''), ChatSend, ChatCallFailed 1]))
     = utf16 ''session_1700000000000''"
proof -
  have a: "chat_new_sessionId 1700000000000 = utf16 ''session_1700000000000''"
    by (simp add: chat_new_sessionId_def Number_toString_def utf16_def)
  have b: "(1700000000000::int) \<noteq> 1700000000001"
    by simp
  from sessionId_from_clock[of 1700000000000 1700000000001
        "[ChatType (utf16 ''hello''), ChatSend, ChatCallFailed 1]" "[]"] a b
  show ?thesis
    by metis
qed

section \<open>File selection\<close>

lemma resume_inv_init: "resume_inv resume_init"
  by (simp add: resume_inv_def resume_init_def)

lemma resume_inv_step: "resume_inv p \<Longrightarrow> resume_inv (resume_step p e)"
proof (cases e)
  case (PickResume files)
  assume "resume_inv p"
  then show ?thesis
    by (auto simp: PickResume resume_inv_def resume_step_def resume_handleFileChange_def Let_def
        split: list.splits)
next
  case (TypeJobDescription d)
  assume "resume_inv p"
  then show ?thesis
    by (simp add: TypeJobDescription resume_inv_def resume_step_def Let_def)
next
  case ClickUploadResume
  assume "resume_inv p"
  then show ?thesis
    by (auto simp: ClickUploadResume resume_inv_def resume_step_def resume_handleUpload_def
        sent_def Let_def split: option.splits)
next
  case ClickScreen
  assume "resume_inv p"
  then show ?thesis
    by (auto simp: ClickScreen resume_inv_def resume_step_def handleScreenResumes_def
        sent_def Let_def)
next
  case (ResumesListed n body)
  assume "resume_inv p"
  then show ?thesis
    by (auto simp: ResumesListed resume_inv_def resume_step_def loadResumes_success_def
        Let_def dest: set_drop_nth)
next
  case (ResumeUploaded n)
  assume "resume_inv p"
  then show ?thesis
    by (auto simp: ResumeUploaded resume_inv_def resume_step_def resume_handleUpload_success_def
        sent_def Let_def dest: set_drop_nth)
next
  case (ResumesScreened n body)
  assume "resume_inv p"
  then show ?thesis
    by (auto simp: ResumesScreened resume_inv_def resume_step_def
        handleScreenResumes_success_def sent_def Let_def dest: set_drop_nth)
next
  case (ResumeCallFailed n)
  assume "resume_inv p"
  then show ?thesis
    by (auto simp: ResumeCallFailed resume_inv_def resume_step_def loadResumes_failure_def
        resume_handleUpload_failure_def handleScreenResumes_failure_def Let_def
        split: resume_call.splits dest: set_drop_nth)
qed

lemma resume_inv_run: "resume_inv p \<Longrightarrow> resume_inv (resume_run p es)"
  unfolding resume_run_def
  by (induction es arbitrary: p) (simp_all add: resume_inv_step)

lemma documents_inv_init: "documents_inv documents_init"
  by (simp add: documents_inv_def documents_init_def)

lemma documents_inv_step: "documents_inv p \<Longrightarrow> documents_inv (documents_step p e)"
proof (cases e)
  case (PickDocument files)
  assume "documents_inv p"
  then show ?thesis
    by (auto simp: PickDocument documents_inv_def documents_step_def
        documents_handleFileChange_def Let_def split: list.splits)
next
  case (ChooseDocType d)
  assume "documents_inv p"
  then show ?thesis
    by (simp add: ChooseDocType documents_inv_def documents_step_def Let_def)
next
  case ClickUploadDocument
  assume "documents_inv p"
  then show ?thesis
    by (auto simp: ClickUploadDocument documents_inv_def documents_step_def
        documents_handleUpload_def sent_def Let_def split: option.splits)
next
  case (DocumentsListed n body)
  assume "documents_inv p"
  then show ?thesis
    by (auto simp: DocumentsListed documents_inv_def documents_step_def
        loadDocuments_success_def Let_def dest: set_drop_nth)
next
  case (DocumentUploaded n)
  assume "documents_inv p"
  then show ?thesis
    by (auto simp: DocumentUploaded documents_inv_def documents_step_def
        documents_handleUpload_success_def sent_def Let_def dest: set_drop_nth)
next
  case (DocumentCallFailed n)
  assume "documents_inv p"
  then show ?thesis
    by (auto simp: DocumentCallFailed documents_inv_def documents_step_def
        loadDocuments_failure_def documents_handleUpload_failure_def Let_def
        split: documents_call.splits dest: set_drop_nth)
qed

lemma documents_inv_run: "documents_inv p \<Longrightarrow> documents_inv (documents_run p es)"
  unfolding documents_run_def
  by (induction es arbitrary: p) (simp_all add: documents_inv_step)

lemma resume_inv_selected:
  "resume_inv p \<Longrightarrow> selectedFile (resume_ui p) = Some f \<Longrightarrow> accepted_name (file_name f)"
  by (simp add: resume_inv_def)

lemma resume_inv_pending:
  "resume_inv p \<Longrightarrow> UploadResume f \<in> set (resume_pending p) \<Longrightarrow> accepted_name (file_name f)"
  by (force simp: resume_inv_def)

lemma documents_inv_selected:
  "documents_inv p \<Longrightarrow> documents_selectedFile (documents_ui p) = Some f \<Longrightarrow>
     accepted_name (file_name f)"
  by (simp add: documents_inv_def)

lemma documents_inv_pending:
  "documents_inv p \<Longrightarrow> UploadDocument f d \<in> set (documents_pending p) \<Longrightarrow>
     accepted_name (file_name f)"
  by (force simp: documents_inv_def)

lemma rejected_pick_resume:
  "files = [] \<or> \<not> accepted_name (file_name (hd files)) \<Longrightarrow>
     resume_handleFileChange files s = s"
  by (auto simp: resume_handleFileChange_def split: list.splits)

lemma rejected_pick_document:
  "files = [] \<or> \<not> accepted_name (file_name (hd files)) \<Longrightarrow>
     documents_handleFileChange files d = d"
  by (auto simp: documents_handleFileChange_def split: list.splits)

lemma accepted_cv: "accepted_name (file_name cv_pdf)"
  by (simp add: accepted_name_def endsWith_def cv_pdf_def utf16_def)

lemma rejected_notes: "\<not> accepted_name (file_name notes_txt)"
  by (simp add: accepted_name_def endsWith_def notes_txt_def utf16_def)

lemma resume_pick_run:
  "resume_run resume_init [PickResume [cv_pdf], PickResume [notes_txt], ClickUploadResume] =
     \<lparr>resume_ui = \<lparr>resumes = [], uploading = True, screening = False,
                   selectedFile = Some cv_pdf, jobDescription = [], screenResults = []\<rparr>,
      resume_pending = [ListResumes, UploadResume cv_pdf]\<rparr>"
  by (simp add: resume_run_def resume_init_def resume_step_def resume_handleFileChange_def
      resume_handleUpload_def sent_def accepted_cv rejected_notes Let_def)

lemma documents_pick_run:
  "documents_run documents_init
      [PickDocument [cv_pdf], PickDocument [notes_txt], ClickUploadDocument] =
     \<lparr>documents_ui = \<lparr>documents = [], documents_uploading = True, docType = utf16 ''hr'',
                      documents_selectedFile = Some cv_pdf\<rparr>,
      documents_pending = [ListDocuments, UploadDocument cv_pdf (utf16 ''hr'')]\<rparr>"
  by (simp add: documents_run_def documents_init_def documents_step_def
      documents_handleFileChange_def documents_handleUpload_def sent_def accepted_cv
      rejected_notes Let_def)

text \<open>
  C10. In both upload views a selection event whose file list is empty, or whose first
  file has a name ending neither in \<open>.pdf\<close> nor in \<open>.docx\<close>, leaves the state as it
  was, so a file selected before stays selected. In every state a view reaches from its
  mount the selected file, if any, has such a name, and so has the file of every upload
  request sent.
\<close>

theorem selected_file_has_accepted_name:
  "(files = [] \<or> \<not> accepted_name (file_name (hd files)) \<longrightarrow>
      resume_handleFileChange files s = s \<and> documents_handleFileChange files d = d)
 \<and> (selectedFile (resume_ui (resume_run resume_init es)) = Some f \<longrightarrow>
      accepted_name (file_name f))
 \<and> (UploadResume g \<in> set (resume_pending (resume_run resume_init es)) \<longrightarrow>
      accepted_name (file_name g))
 \<and> (documents_selectedFile (documents_ui (documents_run documents_init es')) = Some f' \<longrightarrow>
      accepted_name (file_name f'))
 \<and> (UploadDocument g' t \<in> set (documents_pending (documents_run documents_init es')) \<longrightarrow>
      accepted_name (file_name g'))"
proof -
  have r: "resume_inv (resume_run resume_init es)"
    by (rule resume_inv_run) (rule resume_inv_init)
  have d: "documents_inv (documents_run documents_init es')"
    by (rule documents_inv_run) (rule documents_inv_init)
  show ?thesis
    using resume_inv_selected[OF r] resume_inv_pending[OF r]
      documents_inv_selected[OF d] documents_inv_pending[OF d]
      rejected_pick_resume[of files s] rejected_pick_document[of files d]
    by blast
qed

theorem selected_file_has_accepted_name_witness:
  "\<not> accepted_name (file_name (hd [notes_txt]))
 \<and> resume_handleFileChange [notes_txt]
      (resume_ui (resume_run resume_init [PickResume [cv_pdf]]))
     = resume_ui (resume_run resume_init [PickResume [cv_pdf]])
 \<and> selectedFile (resume_ui (resume_run resume_init
      [PickResume [cv_pdf], PickResume [notes_txt], ClickUploadResume])) = Some cv_pdf
 \<and> UploadResume cv_pdf \<in> set (resume_pending (resume_run resume_init
      [PickResume [cv_pdf], PickResume [notes_txt], ClickUploadResume]))
 \<and> documents_selectedFile (documents_ui (documents_run documents_init
      [PickDocument [cv_pdf], PickDocument [notes_txt], ClickUploadDocument])) = Some cv_pdf
 \<and> UploadDocument cv_pdf (utf16 ''hr'') \<in> set (documents_pending (documents_run documents_init
      [PickDocument [cv_pdf], PickDocument [notes_txt], ClickUploadDocument]))
 \<and> accepted_name (file_name cv_pdf)"
proof -
  let ?es = "[PickResume [cv_pdf], PickResume [notes_txt], ClickUploadResume]"
  let ?ds = "[PickDocument [cv_pdf], PickDocument [notes_txt], ClickUploadDocument]"
  let ?s = "resume_ui (resume_run resume_init [PickResume [cv_pdf]])"
  have n: "\<not> accepted_name (file_name (hd [notes_txt]))"
    by (simp add: rejected_notes)
  have a: "selectedFile (resume_ui (resume_run resume_init ?es)) = Some cv_pdf"
    and b: "UploadResume cv_pdf \<in> set (resume_pending (resume_run resume_init ?es))"
    by (simp_all add: resume_pick_run)
  have c: "documents_selectedFile (documents_ui (documents_run documents_init ?ds)) = Some cv_pdf"
    and d: "UploadDocument cv_pdf (utf16 ''hr'')
              \<in> set (documents_pending (documents_run documents_init ?ds))"
    by (simp_all add: documents_pick_run)
  from selected_file_has_accepted_name
         [of "[notes_txt]" ?s "documents_ui documents_init" ?es cv_pdf cv_pdf ?ds cv_pdf cv_pdf
             "utf16 ''hr''"]
       n a b c d
  show ?thesis by blast
qed

end
